theory Spec2Isabelle
  imports Main
begin

section \<open>The CSS selector builder of \<^verbatim>\<open>05-objects-tasks.js\<close>\<close>

subsection \<open>Data model\<close>

text \<open>
  The \<^verbatim>\<open>type\<close> tag of a selector part is one of the six strings that the
  appending methods write, \<^verbatim>\<open>'element'\<close>, \<^verbatim>\<open>'id'\<close>, \<^verbatim>\<open>'class'\<close>,
  \<^verbatim>\<open>'attribute'\<close>, \<^verbatim>\<open>'pseudoClass'\<close> and \<^verbatim>\<open>'pseudoElement'\<close>: an enumeration.
\<close>

datatype category = Element | Id | Class | Attribute | PseudoClass | PseudoElement

text \<open>An entry of \<^verbatim>\<open>this.selectors\<close>: \<^verbatim>\<open>{ type, value }\<close>.\<close>

record selector_part =
  ptype :: category
  pvalue :: string

text \<open>\<^verbatim>\<open>this.flags\<close>.\<close>

record flags =
  element_flag :: bool
  id_flag :: bool
  pseudoElement_flag :: bool

text \<open>
  An instance of \<^verbatim>\<open>SelectorBuilderClass\<close>. An entry of \<^verbatim>\<open>combineSelectors\<close> is what
  \<^verbatim>\<open>stringify\<close> returned, a string or \<^verbatim>\<open>null\<close> (\<open>None\<close>). The field
  \<^verbatim>\<open>this.order\<close> is written by the constructor only and never changed: it is the
  constant \<open>order\<close> below.
\<close>

record builder =
  selectors :: "selector_part list"
  combineSelectors :: "string option list"
  flags :: flags

definition order :: "category list" where
  "order = [Element, Id, Class, Attribute, PseudoClass, PseudoElement]"

text \<open>
  The two errors the class throws, told apart by their messages:
  \<^item> \<open>DuplicateSelectorPartError\<close>: \<^verbatim>\<open>'Element, id and pseudo-element should not occur
    more then one time inside the selector'\<close>;
  \<^item> \<open>SelectorOrderError\<close>: \<^verbatim>\<open>'Selector parts should be arranged in the following
    order: element, id, class, attribute, pseudo-class, pseudo-element'\<close>.
\<close>

datatype error = DuplicateSelectorPartError | SelectorOrderError

text \<open>
  A method of the class mutates \<^verbatim>\<open>this\<close> and then either returns \<^verbatim>\<open>this\<close> or throws.
  Both outcomes carry the state of \<^verbatim>\<open>this\<close> at that moment, which is what a caller
  that catches the exception goes on to see.
\<close>

datatype outcome = Returned builder | Thrown error builder

fun state_of :: "outcome \<Rightarrow> builder" where
  "state_of (Returned b) = b"
| "state_of (Thrown e b) = b"

fun error_of :: "outcome \<Rightarrow> error option" where
  "error_of (Returned b) = None"
| "error_of (Thrown e b) = Some e"

subsection \<open>The array methods the class uses\<close>

text \<open>\<^verbatim>\<open>xs.indexOf(x)\<close>: the first index of \<open>x\<close>, or \<open>-1\<close>.\<close>

fun indexOf :: "'a list \<Rightarrow> 'a \<Rightarrow> int" where
  "indexOf [] x = - 1"
| "indexOf (y # ys) x =
     (if y = x then 0 else (let k = indexOf ys x in if k < 0 then - 1 else k + 1))"

text \<open>
  \<^verbatim>\<open>xs.slice(start, end)\<close>: a negative bound counts from the end of the array, and both
  bounds are clamped to it.
\<close>

definition clamp_index :: "int \<Rightarrow> nat \<Rightarrow> nat" where
  "clamp_index k n = (if k < 0 then nat (max (int n + k) 0) else min (nat k) n)"

definition slice :: "int \<Rightarrow> int \<Rightarrow> 'a list \<Rightarrow> 'a list" where
  "slice start end xs =
     (let from = clamp_index start (length xs); to = clamp_index end (length xs)
      in take (to - from) (drop from xs))"

text \<open>\<^verbatim>\<open>xs.slice(start)\<close>: up to the end of the array.\<close>

definition slice_from :: "int \<Rightarrow> 'a list \<Rightarrow> 'a list" where
  "slice_from start xs = drop (clamp_index start (length xs)) xs"

text \<open>\<^verbatim>\<open>xs.includes(x)\<close>.\<close>

definition includes_elem :: "'a list \<Rightarrow> 'a \<Rightarrow> bool" where
  "includes_elem xs x = (x \<in> set xs)"

text \<open>\<^verbatim>\<open>xs.every((x, index) => p(x, index))\<close>.\<close>

definition every :: "('a \<Rightarrow> nat \<Rightarrow> bool) \<Rightarrow> 'a list \<Rightarrow> bool" where
  "every p xs = list_all (\<lambda>(index, x). p x index) (enumerate 0 xs)"

text \<open>
  \<^verbatim>\<open>xs.join('')\<close> on an array of strings, and on an array that may hold \<^verbatim>\<open>null\<close>,
  which \<^verbatim>\<open>join\<close> renders as the empty string.
\<close>

definition join :: "string list \<Rightarrow> string" where
  "join xs = concat xs"

fun text_of :: "string option \<Rightarrow> string" where
  "text_of None = []"
| "text_of (Some s) = s"

definition join_nullable :: "string option list \<Rightarrow> string" where
  "join_nullable xs = concat (map text_of xs)"

subsection \<open>The methods of \<^verbatim>\<open>SelectorBuilderClass\<close>\<close>

text \<open>The constructor.\<close>

definition SelectorBuilderClass :: builder where
  "SelectorBuilderClass =
     \<lparr>selectors = [], combineSelectors = [],
      flags = \<lparr>element_flag = False, id_flag = False, pseudoElement_flag = False\<rparr>\<rparr>"

text \<open>\<^verbatim>\<open>this.selectors.push(part)\<close>.\<close>

definition push_selector :: "selector_part \<Rightarrow> builder \<Rightarrow> builder" where
  "push_selector p b = b\<lparr>selectors := selectors b @ [p]\<rparr>"

text \<open>
  \<^verbatim>\<open>checkOrder\<close> reads \<^verbatim>\<open>this\<close> and either returns \<^verbatim>\<open>true\<close> or throws.
\<close>

definition isValidOrder :: "builder \<Rightarrow> bool" where
  "isValidOrder b =
     every (\<lambda>selector index.
        let indexInOrder = indexOf order (ptype selector);
            sels = slice 0 (int index) (selectors b)
        in every (\<lambda>elem _. \<not> includes_elem (slice_from (indexInOrder + 1) order) (ptype elem)) sels)
       (selectors b)"

definition checkOrder :: "builder \<Rightarrow> error + bool" where
  "checkOrder b = (if \<not> isValidOrder b then Inl SelectorOrderError else Inr True)"

text \<open>What follows the push in \<^verbatim>\<open>element\<close>, \<^verbatim>\<open>id\<close>, \<^verbatim>\<open>class\<close>, \<^verbatim>\<open>attr\<close> and
  \<^verbatim>\<open>pseudoClass\<close>: \<^verbatim>\<open>this.checkOrder(); return this;\<close>.\<close>

definition check_and_return :: "builder \<Rightarrow> outcome" where
  "check_and_return b =
     (case checkOrder b of Inl e \<Rightarrow> Thrown e b | Inr _ \<Rightarrow> Returned b)"

definition element :: "string \<Rightarrow> builder \<Rightarrow> outcome" where
  "element v b =
     (if element_flag (flags b) then Thrown DuplicateSelectorPartError b
      else check_and_return
        (push_selector \<lparr>ptype = Element, pvalue = v\<rparr>
          (b\<lparr>flags := (flags b)\<lparr>element_flag := True\<rparr>\<rparr>)))"

definition id_sel :: "string \<Rightarrow> builder \<Rightarrow> outcome" where
  "id_sel v b =
     (if id_flag (flags b) then Thrown DuplicateSelectorPartError b
      else check_and_return
        (push_selector \<lparr>ptype = Id, pvalue = ''#'' @ v\<rparr>
          (b\<lparr>flags := (flags b)\<lparr>id_flag := True\<rparr>\<rparr>)))"

definition class_sel :: "string \<Rightarrow> builder \<Rightarrow> outcome" where
  "class_sel v b =
     check_and_return (push_selector \<lparr>ptype = Class, pvalue = ''.'' @ v\<rparr> b)"

definition attr :: "string \<Rightarrow> builder \<Rightarrow> outcome" where
  "attr v b =
     check_and_return (push_selector \<lparr>ptype = Attribute, pvalue = ''['' @ v @ '']''\<rparr> b)"

definition pseudoClass :: "string \<Rightarrow> builder \<Rightarrow> outcome" where
  "pseudoClass v b =
     check_and_return (push_selector \<lparr>ptype = PseudoClass, pvalue = '':'' @ v\<rparr> b)"

definition pseudoElement :: "string \<Rightarrow> builder \<Rightarrow> outcome" where
  "pseudoElement v b =
     (if pseudoElement_flag (flags b) then Thrown DuplicateSelectorPartError b
      else Returned
        (push_selector \<lparr>ptype = PseudoElement, pvalue = ''::'' @ v\<rparr>
          (b\<lparr>flags := (flags b)\<lparr>pseudoElement_flag := True\<rparr>\<rparr>)))"

text \<open>\<^verbatim>\<open>stringify\<close> returns a string or \<^verbatim>\<open>null\<close>, and the state of \<^verbatim>\<open>this\<close> after it.\<close>

definition stringify :: "builder \<Rightarrow> string option \<times> builder" where
  "stringify b =
     (let selector =
        (if selectors b \<noteq> [] then Some (join (map pvalue (selectors b)))
         else if combineSelectors b \<noteq> [] then Some (join_nullable (combineSelectors b))
         else None)
      in (selector, b\<lparr>selectors := [], combineSelectors := []\<rparr>))"

subsection \<open>Call sequences on one builder\<close>

text \<open>
  A call of one of the six appending methods, with its argument. \<open>invoke\<close> dispatches
  to the method, and \<open>run\<close> is a chain \<^verbatim>\<open>b.m1(v1).m2(v2)...\<close>: each call is made on
  what the one before returned, and the first exception ends the chain.
\<close>

datatype call =
  CallElement string | CallId string | CallClass string
| CallAttr string | CallPseudoClass string | CallPseudoElement string

fun invoke :: "call \<Rightarrow> builder \<Rightarrow> outcome" where
  "invoke (CallElement v) b = element v b"
| "invoke (CallId v) b = id_sel v b"
| "invoke (CallClass v) b = class_sel v b"
| "invoke (CallAttr v) b = attr v b"
| "invoke (CallPseudoClass v) b = pseudoClass v b"
| "invoke (CallPseudoElement v) b = pseudoElement v b"

fun run :: "call list \<Rightarrow> builder \<Rightarrow> outcome" where
  "run [] b = Returned b"
| "run (c # cs) b =
     (case invoke c b of Returned b' \<Rightarrow> run cs b' | Thrown e b' \<Rightarrow> Thrown e b')"

text \<open>
  What a caller that catches every exception can do to one builder: call an appending
  method or \<^verbatim>\<open>stringify\<close>, and go on with the builder as the call left it.
\<close>

datatype action = Invoke call | Stringify

fun perform :: "action \<Rightarrow> builder \<Rightarrow> builder" where
  "perform (Invoke c) b = state_of (invoke c b)"
| "perform Stringify b = snd (stringify b)"

definition perform_all :: "action list \<Rightarrow> builder \<Rightarrow> builder" where
  "perform_all as b = foldl (\<lambda>s a. perform a s) b as"

subsection \<open>Builders as objects: the store\<close>

text \<open>
  \<^verbatim>\<open>combine\<close> calls \<^verbatim>\<open>stringify\<close> on two other builders and so mutates objects other
  than \<^verbatim>\<open>this\<close>. Builders therefore live in a store: a reference is an index, and
  \<^verbatim>\<open>new SelectorBuilderClass()\<close> appends a new object. A reference held by a program
  is always below the length of the store.
\<close>

type_synonym ref = nat
type_synonym heap = "builder list"

definition new_builder :: "heap \<Rightarrow> ref \<times> heap" where
  "new_builder h = (length h, h @ [SelectorBuilderClass])"

text \<open>
  A call \<^verbatim>\<open>r.m(v)\<close> of an appending method on the object at \<open>this\<close>: the object is
  updated in the store in both outcomes, and the call returns \<^verbatim>\<open>this\<close> or throws.
\<close>

definition call_method :: "(builder \<Rightarrow> outcome) \<Rightarrow> ref \<Rightarrow> heap \<Rightarrow> (error + ref) \<times> heap" where
  "call_method m this h =
     (case m (h ! this) of
        Returned b \<Rightarrow> (Inr this, h[this := b])
      | Thrown e b \<Rightarrow> (Inl e, h[this := b]))"

text \<open>\<^verbatim>\<open>r.stringify()\<close>.\<close>

definition stringify_at :: "ref \<Rightarrow> heap \<Rightarrow> string option \<times> heap" where
  "stringify_at this h = (let (s, b) = stringify (h ! this) in (s, h[this := b]))"

text \<open>\<^verbatim>\<open>this.combineSelectors.push(t)\<close>.\<close>

definition push_combine :: "string option \<Rightarrow> ref \<Rightarrow> heap \<Rightarrow> heap" where
  "push_combine t this h =
     h[this := (h ! this)\<lparr>combineSelectors := combineSelectors (h ! this) @ [t]\<rparr>]"

text \<open>
  \<^verbatim>\<open>this.combine(selector1, combinator, selector2)\<close>. In
  \<^verbatim>\<open>this.combineSelectors.push(selector1.stringify())\<close> the array \<^verbatim>\<open>this.combineSelectors\<close>
  is read before the argument is evaluated. When \<^verbatim>\<open>selector1\<close> is \<^verbatim>\<open>this\<close> itself,
  \<^verbatim>\<open>stringify\<close> has by then replaced that array with a new empty one, and the push goes
  to the old array, which nothing refers to any more: \<^verbatim>\<open>this\<close> does not get the entry.
  The same holds for \<^verbatim>\<open>selector2\<close>.
\<close>

definition combine :: "ref \<Rightarrow> ref \<Rightarrow> string \<Rightarrow> ref \<Rightarrow> heap \<Rightarrow> ref \<times> heap" where
  "combine this selector1 combinator selector2 h =
     (let (t1, h1) = stringify_at selector1 h;
          h2 = (if selector1 = this then h1 else push_combine t1 this h1);
          h3 = push_combine (Some ('' '' @ combinator @ '' '')) this h2;
          (t2, h4) = stringify_at selector2 h3;
          h5 = (if selector2 = this then h4 else push_combine t2 this h4)
      in (this, h5))"

text \<open>The facade \<^verbatim>\<open>cssSelectorBuilder\<close>: every entry point makes a new builder.\<close>

definition cssSelectorBuilder_element :: "string \<Rightarrow> heap \<Rightarrow> (error + ref) \<times> heap" where
  "cssSelectorBuilder_element v h = (let (r, h') = new_builder h in call_method (element v) r h')"

definition cssSelectorBuilder_id :: "string \<Rightarrow> heap \<Rightarrow> (error + ref) \<times> heap" where
  "cssSelectorBuilder_id v h = (let (r, h') = new_builder h in call_method (id_sel v) r h')"

definition cssSelectorBuilder_class :: "string \<Rightarrow> heap \<Rightarrow> (error + ref) \<times> heap" where
  "cssSelectorBuilder_class v h = (let (r, h') = new_builder h in call_method (class_sel v) r h')"

definition cssSelectorBuilder_attr :: "string \<Rightarrow> heap \<Rightarrow> (error + ref) \<times> heap" where
  "cssSelectorBuilder_attr v h = (let (r, h') = new_builder h in call_method (attr v) r h')"

definition cssSelectorBuilder_pseudoClass :: "string \<Rightarrow> heap \<Rightarrow> (error + ref) \<times> heap" where
  "cssSelectorBuilder_pseudoClass v h =
     (let (r, h') = new_builder h in call_method (pseudoClass v) r h')"

definition cssSelectorBuilder_pseudoElement :: "string \<Rightarrow> heap \<Rightarrow> (error + ref) \<times> heap" where
  "cssSelectorBuilder_pseudoElement v h =
     (let (r, h') = new_builder h in call_method (pseudoElement v) r h')"

definition cssSelectorBuilder_combine :: "ref \<Rightarrow> string \<Rightarrow> ref \<Rightarrow> heap \<Rightarrow> ref \<times> heap" where
  "cssSelectorBuilder_combine selector1 combinator selector2 h =
     (let (r, h') = new_builder h in combine r selector1 combinator selector2 h')"

text \<open>
  Programs over the store: a program runs on a store and returns a value or an error,
  and the store it leaves. \<open>then_call\<close> runs a second program on the value of the
  first, unless the first threw; \<open>returning\<close> is a call that cannot throw.
\<close>

type_synonym 'a prog = "heap \<Rightarrow> (error + 'a) \<times> heap"

definition then_call :: "'a prog \<Rightarrow> ('a \<Rightarrow> 'b prog) \<Rightarrow> 'b prog" where
  "then_call m f h = (case m h of (Inl e, h') \<Rightarrow> (Inl e, h') | (Inr a, h') \<Rightarrow> f a h')"

definition returning :: "(heap \<Rightarrow> 'a \<times> heap) \<Rightarrow> 'a prog" where
  "returning m h = (case m h of (a, h') \<Rightarrow> (Inr a, h'))"

text \<open>
  The example of the documentation comment. Arguments are evaluated left to right, so
  the four simple selectors are built first and the three \<^verbatim>\<open>combine\<close> calls run from
  the innermost outwards.
  \<^verbatim>\<open>
  builder.combine(
      builder.element('div').id('main').class('container').class('draggable'),
      '+',
      builder.combine(
          builder.element('table').id('data'),
          '~',
           builder.combine(
               builder.element('tr').pseudoClass('nth-of-type(even)'),
               ' ',
               builder.element('td').pseudoClass('nth-of-type(even)')
           )
      )
  ).stringify()
  \<close>
\<close>

definition worked_example :: "string option prog" where
  "worked_example =
     then_call (then_call (then_call (then_call (cssSelectorBuilder_element ''div'')
       (call_method (id_sel ''main''))) (call_method (class_sel ''container'')))
       (call_method (class_sel ''draggable''))) (\<lambda>a.
     then_call (then_call (cssSelectorBuilder_element ''table'')
       (call_method (id_sel ''data''))) (\<lambda>b.
     then_call (then_call (cssSelectorBuilder_element ''tr'')
       (call_method (pseudoClass ''nth-of-type(even)''))) (\<lambda>c.
     then_call (then_call (cssSelectorBuilder_element ''td'')
       (call_method (pseudoClass ''nth-of-type(even)''))) (\<lambda>d.
     then_call (returning (cssSelectorBuilder_combine c '' '' d)) (\<lambda>e.
     then_call (returning (cssSelectorBuilder_combine b ''~'' e)) (\<lambda>f.
     then_call (returning (cssSelectorBuilder_combine a ''+'' f)) (\<lambda>g.
     returning (stringify_at g))))))))"

subsection \<open>The specification's vocabulary\<close>

text \<open>
  The position of a category in the fixed enumeration element, id, class, attribute,
  pseudoClass, pseudoElement.
\<close>

fun category_index :: "category \<Rightarrow> nat" where
  "category_index Element = 0"
| "category_index Id = 1"
| "category_index Class = 2"
| "category_index Attribute = 3"
| "category_index PseudoClass = 4"
| "category_index PseudoElement = 5"

text \<open>The category a call adds, and the fragment the specification gives it.\<close>

fun call_category :: "call \<Rightarrow> category" where
  "call_category (CallElement v) = Element"
| "call_category (CallId v) = Id"
| "call_category (CallClass v) = Class"
| "call_category (CallAttr v) = Attribute"
| "call_category (CallPseudoClass v) = PseudoClass"
| "call_category (CallPseudoElement v) = PseudoElement"

fun fragment :: "call \<Rightarrow> string" where
  "fragment (CallElement v) = v"
| "fragment (CallId v) = CHR ''#'' # v"
| "fragment (CallClass v) = CHR ''.'' # v"
| "fragment (CallAttr v) = CHR ''['' # v @ [CHR '']'']"
| "fragment (CallPseudoClass v) = CHR '':'' # v"
| "fragment (CallPseudoElement v) = CHR '':'' # CHR '':'' # v"

definition part_of :: "call \<Rightarrow> selector_part" where
  "part_of c = \<lparr>ptype = call_category c, pvalue = fragment c\<rparr>"

text \<open>
  A valid ordering of calls: the categories never step back in the enumeration, and
  element, id and pseudoElement occur at most once each.
\<close>

definition valid_ordering :: "call list \<Rightarrow> bool" where
  "valid_ordering cs \<longleftrightarrow>
     sorted (map (\<lambda>c. category_index (call_category c)) cs) \<and>
     count_list (map call_category cs) Element \<le> 1 \<and>
     count_list (map call_category cs) Id \<le> 1 \<and>
     count_list (map call_category cs) PseudoElement \<le> 1"

text \<open>
  An inverted pair: a part that stands before another one in insertion order and comes
  strictly after it in the enumeration.
\<close>

definition inverted_pair :: "selector_part list \<Rightarrow> bool" where
  "inverted_pair ps \<longleftrightarrow>
     (\<exists>j<length ps. \<exists>i<j. category_index (ptype (ps ! j)) < category_index (ptype (ps ! i)))"

text \<open>
  A builder is consumed when both its sequences are empty, so that \<^verbatim>\<open>stringify\<close> on it
  returns \<^verbatim>\<open>null\<close>. \<open>cleared\<close> is a builder after \<^verbatim>\<open>stringify\<close>.
\<close>

definition consumed :: "ref \<Rightarrow> heap \<Rightarrow> bool" where
  "consumed r h \<longleftrightarrow>
     selectors (h ! r) = [] \<and> combineSelectors (h ! r) = [] \<and> fst (stringify_at r h) = None"

definition cleared :: "builder \<Rightarrow> builder" where
  "cleared b = b\<lparr>selectors := [], combineSelectors := []\<rparr>"

subsection \<open>What a call does, in one equation\<close>

text \<open>
  Used in the proofs only. \<open>blocked\<close> is the test of the singleton flag that opens
  \<^verbatim>\<open>element\<close>, \<^verbatim>\<open>id\<close> and \<^verbatim>\<open>pseudoElement\<close>; \<open>appended\<close> is the builder after the
  flag is set and the part is pushed.
\<close>

fun blocked :: "call \<Rightarrow> builder \<Rightarrow> bool" where
  "blocked (CallElement v) b = element_flag (flags b)"
| "blocked (CallId v) b = id_flag (flags b)"
| "blocked (CallPseudoElement v) b = pseudoElement_flag (flags b)"
| "blocked c b = False"

fun mark :: "call \<Rightarrow> flags \<Rightarrow> flags" where
  "mark (CallElement v) f = f\<lparr>element_flag := True\<rparr>"
| "mark (CallId v) f = f\<lparr>id_flag := True\<rparr>"
| "mark (CallPseudoElement v) f = f\<lparr>pseudoElement_flag := True\<rparr>"
| "mark c f = f"

definition appended :: "call \<Rightarrow> builder \<Rightarrow> builder" where
  "appended c b = b\<lparr>flags := mark c (flags b), selectors := selectors b @ [part_of c]\<rparr>"


section \<open>Plain objects and JSON\<close>

text \<open>
  \<^verbatim>\<open>getJSON\<close> and \<^verbatim>\<open>fromJSON\<close> are one call each of \<^verbatim>\<open>JSON.stringify\<close>, \<^verbatim>\<open>JSON.parse\<close> and
  \<^verbatim>\<open>Object.setPrototypeOf\<close>, which belong to the language and not to this repository.
  They are modelled here, after ECMAScript, on the objects the example of the
  specification needs: plain objects whose own enumerable properties hold integers.
  \<open>fields\<close> are such properties in enumeration order. A number is an \<open>int\<close>; the
  model is meant for integers that a JavaScript number holds exactly and prints without
  an exponent.
\<close>

type_synonym fields = "(string \<times> int) list"

text \<open>An object: its own properties and its prototype, of any type \<open>'p\<close>.\<close>

record 'p js_object =
  properties :: fields
  prototype :: 'p

subsection \<open>\<^verbatim>\<open>JSON.stringify\<close>\<close>

text \<open>
  A property name is written between double quotes, with the escapes of
  \<^verbatim>\<open>QuoteJSONString\<close>: the double quote, the backslash and the control characters.
\<close>

definition hex_digit :: "nat \<Rightarrow> char" where
  "hex_digit n = ''0123456789abcdef'' ! n"

definition quote_char :: "char \<Rightarrow> string" where
  "quote_char c =
     (if c = CHR 0x22 then [CHR 0x5C, CHR 0x22]
      else if c = CHR 0x5C then [CHR 0x5C, CHR 0x5C]
      else if c = CHR 0x08 then [CHR 0x5C, CHR ''b'']
      else if c = CHR 0x0C then [CHR 0x5C, CHR ''f'']
      else if c = CHR 0x0A then [CHR 0x5C, CHR ''n'']
      else if c = CHR 0x0D then [CHR 0x5C, CHR ''r'']
      else if c = CHR 0x09 then [CHR 0x5C, CHR ''t'']
      else if (of_char c :: nat) < 32
        then [CHR 0x5C, CHR ''u'', CHR ''0'', CHR ''0'',
              hex_digit (of_char c div 16), hex_digit (of_char c mod 16)]
      else [c])"

definition QuoteJSONString :: "string \<Rightarrow> string" where
  "QuoteJSONString s = [CHR 0x22] @ concat (map quote_char s) @ [CHR 0x22]"

text \<open>An integer is written in decimal, with a minus sign when negative.\<close>

fun digits_of :: "nat \<Rightarrow> string" where
  "digits_of n =
     (if n < 10 then [char_of (48 + n)] else digits_of (n div 10) @ [char_of (48 + n mod 10)])"

definition Number_toString :: "int \<Rightarrow> string" where
  "Number_toString i = (if i < 0 then CHR ''-'' # digits_of (nat (- i)) else digits_of (nat i))"

text \<open>The members \<^verbatim>\<open>"name":value\<close> are separated by commas, with no white space.\<close>

fun separated :: "string \<Rightarrow> string list \<Rightarrow> string" where
  "separated sep [] = []"
| "separated sep [x] = x"
| "separated sep (x # y # ys) = x @ sep @ separated sep (y # ys)"

definition JSON_stringify :: "fields \<Rightarrow> string" where
  "JSON_stringify obj =
     ''{'' @ separated '','' (map (\<lambda>(k, v). QuoteJSONString k @ '':'' @ Number_toString v) obj) @ ''}''"


subsection \<open>\<^verbatim>\<open>JSON.parse\<close>\<close>

text \<open>
  The parser reads an object whose members are integers, with white space allowed
  between the tokens. On any other text the result is \<open>None\<close>: the text is malformed
  (\<^verbatim>\<open>JSON.parse\<close> throws a \<^verbatim>\<open>SyntaxError\<close>) or it holds a value that is not an integer
  literal and so lies outside this model.
\<close>

definition is_ws :: "char \<Rightarrow> bool" where
  "is_ws c \<longleftrightarrow> c = CHR 0x20 \<or> c = CHR 0x09 \<or> c = CHR 0x0A \<or> c = CHR 0x0D"

definition skip_ws :: "string \<Rightarrow> string" where
  "skip_ws s = dropWhile is_ws s"

definition is_digit :: "char \<Rightarrow> bool" where
  "is_digit c \<longleftrightarrow> (48::nat) \<le> of_char c \<and> (of_char c :: nat) \<le> 57"

definition parse_digits :: "string \<Rightarrow> int" where
  "parse_digits ds = foldl (\<lambda>a c. 10 * a + (of_char c - 48)) 0 ds"

definition hex_value :: "char \<Rightarrow> nat option" where
  "hex_value c =
     (let n = (of_char c :: nat) in
      if 48 \<le> n \<and> n \<le> 57 then Some (n - 48)
      else if 97 \<le> n \<and> n \<le> 102 then Some (n - 87)
      else if 65 \<le> n \<and> n \<le> 70 then Some (n - 55)
      else None)"

definition unescape :: "char \<Rightarrow> char option" where
  "unescape e =
     (if e = CHR 0x22 \<or> e = CHR 0x5C \<or> e = CHR ''/'' then Some e
      else if e = CHR ''b'' then Some (CHR 0x08)
      else if e = CHR ''f'' then Some (CHR 0x0C)
      else if e = CHR ''n'' then Some (CHR 0x0A)
      else if e = CHR ''r'' then Some (CHR 0x0D)
      else if e = CHR ''t'' then Some (CHR 0x09)
      else None)"

text \<open>
  \<open>parse_chars\<close> reads a string after its opening quote and returns its characters and
  the text after the closing quote. A \<^verbatim>\<open>\u\<close> escape is read when it names a character
  below 256, which is all that a \<open>char\<close> holds.
\<close>

definition cons_char :: "char \<Rightarrow> (string \<times> string) option \<Rightarrow> (string \<times> string) option" where
  "cons_char c r = map_option (\<lambda>(s, rest). (c # s, rest)) r"

fun parse_chars :: "string \<Rightarrow> (string \<times> string) option" where
  "parse_chars [] = None"
| "parse_chars (c # cs) =
     (if c = CHR 0x22 then Some ([], cs)
      else if c = CHR 0x5C then
        (case cs of
           [] \<Rightarrow> None
         | e # cs' \<Rightarrow>
             if e = CHR ''u'' then
               (case cs' of
                  a # b # x # y # cs'' \<Rightarrow>
                    (case (hex_value a, hex_value b, hex_value x, hex_value y) of
                       (Some 0, Some 0, Some p, Some q) \<Rightarrow>
                         cons_char (char_of (16 * p + q)) (parse_chars cs'')
                     | _ \<Rightarrow> None)
                | _ \<Rightarrow> None)
             else
               (case unescape e of
                  None \<Rightarrow> None
                | Some d \<Rightarrow> cons_char d (parse_chars cs')))
      else if (of_char c :: nat) < 32 then None
      else cons_char c (parse_chars cs))"

text \<open>
  An integer literal: an optional minus sign and digits with no leading zero. A
  fraction or an exponent after it is outside the model.
\<close>

definition parse_number :: "string \<Rightarrow> (int \<times> string) option" where
  "parse_number s =
     (let negative = (s \<noteq> [] \<and> hd s = CHR ''-'');
          s1 = (if negative then tl s else s);
          ds = takeWhile is_digit s1;
          rest = dropWhile is_digit s1
      in if ds = [] then None
         else if 1 < length ds \<and> hd ds = CHR ''0'' then None
         else if rest \<noteq> [] \<and> hd rest \<in> {CHR ''.'', CHR ''e'', CHR ''E''} then None
         else Some (if negative then - parse_digits ds else parse_digits ds, rest))"

text \<open>
  \<^verbatim>\<open>CreateDataProperty\<close>: a member whose name the object has already replaces the value
  in place. A new name that is an array index goes among the array indices, which come
  first in ascending order; any other new name goes to the end.
\<close>

definition is_array_index :: "string \<Rightarrow> bool" where
  "is_array_index k \<longleftrightarrow>
     k \<noteq> [] \<and> list_all is_digit k \<and> (k = ''0'' \<or> hd k \<noteq> CHR ''0'') \<and>
     parse_digits k \<le> 4294967294"

fun insert_index :: "string \<Rightarrow> int \<Rightarrow> fields \<Rightarrow> fields" where
  "insert_index k v [] = [(k, v)]"
| "insert_index k v ((k', v') # fs) =
     (if is_array_index k' \<and> parse_digits k' < parse_digits k then (k', v') # insert_index k v fs
      else (k, v) # (k', v') # fs)"

definition CreateDataProperty :: "fields \<Rightarrow> string \<Rightarrow> int \<Rightarrow> fields" where
  "CreateDataProperty obj k v =
     (if k \<in> fst ` set obj then map (\<lambda>(k', v'). if k' = k then (k', v) else (k', v')) obj
      else if is_array_index k then insert_index k v obj
      else obj @ [(k, v)])"

text \<open>
  The members of an object, after the opening brace. Each member consumes text, which
  is what the termination proof needs.
\<close>

lemma skip_ws_shorter: "skip_ws s = c # r \<Longrightarrow> length r < length s"
  using length_dropWhile_le [of is_ws s] by (simp add: skip_ws_def)

lemma cons_char_Some: "cons_char c x = Some (k, r) \<Longrightarrow> \<exists>k'. x = Some (k', r)"
  by (auto simp add: cons_char_def)

lemma parse_chars_shorter: "parse_chars s = Some (k, r) \<Longrightarrow> length r < length s"
proof (induction s arbitrary: k rule: parse_chars.induct)
  case 1
  then show ?case by simp
next
  case (2 c cs)
  then show ?case
    by (fastforce dest!: cons_char_Some
        split: if_splits list.splits option.splits nat.splits prod.splits)
qed

lemma parse_number_shorter: "parse_number s = Some (v, r) \<Longrightarrow> length r \<le> length s"
proof -
  assume "parse_number s = Some (v, r)"
  then have "r = dropWhile is_digit s \<or> r = dropWhile is_digit (tl s)"
    by (auto simp add: parse_number_def Let_def split: if_splits)
  then show ?thesis
    using length_dropWhile_le [of is_digit s] length_dropWhile_le [of is_digit "tl s"]
    by auto
qed

function parse_members :: "fields \<Rightarrow> string \<Rightarrow> fields option" where
  "parse_members obj s =
     (case skip_ws s of
        [] \<Rightarrow> None
      | c # s1 \<Rightarrow>
          if c \<noteq> CHR 0x22 then None
          else
            (case parse_chars s1 of
               None \<Rightarrow> None
             | Some (k, s2) \<Rightarrow>
                 (case skip_ws s2 of
                    [] \<Rightarrow> None
                  | d # s3 \<Rightarrow>
                      if d \<noteq> CHR '':'' then None
                      else
                        (case parse_number (skip_ws s3) of
                           None \<Rightarrow> None
                         | Some (v, s4) \<Rightarrow>
                             (case skip_ws s4 of
                                [] \<Rightarrow> None
                              | e # s5 \<Rightarrow>
                                  if e = CHR '','' then parse_members (CreateDataProperty obj k v) s5
                                  else if e = CHR ''}'' \<and> skip_ws s5 = []
                                    then Some (CreateDataProperty obj k v)
                                  else None)))))"
  by pat_completeness auto
termination
proof (relation "measure (\<lambda>(obj, s). length s)", goal_cases)
  case 1
  then show ?case by simp
next
  case (2 obj s c s1 x k s2 d s3 y v s4 e s5)
  have "length s1 < length s" using 2 by (auto dest: skip_ws_shorter)
  moreover have "length s2 < length s1" using 2 by (auto dest: parse_chars_shorter)
  moreover have "length s3 < length s2" using 2 by (auto dest: skip_ws_shorter)
  moreover have "length (skip_ws s3) \<le> length s3"
    by (simp add: skip_ws_def length_dropWhile_le)
  moreover have "length s4 \<le> length (skip_ws s3)" using 2 by (auto dest: parse_number_shorter)
  moreover have "length s5 < length s4" using 2 by (auto dest: skip_ws_shorter)
  ultimately show ?case by simp
qed

definition JSON_parse :: "string \<Rightarrow> fields option" where
  "JSON_parse text =
     (case skip_ws text of
        [] \<Rightarrow> None
      | c # s1 \<Rightarrow>
          if c \<noteq> CHR ''{'' then None
          else
            (case skip_ws s1 of
               [] \<Rightarrow> None
             | d # s2 \<Rightarrow>
                 if d = CHR ''}'' then (if skip_ws s2 = [] then Some [] else None)
                 else parse_members [] s1))"


subsection \<open>\<^verbatim>\<open>getJSON\<close> and \<^verbatim>\<open>fromJSON\<close>\<close>

text \<open>
  \<^verbatim>\<open>JSON.parse\<close> returns a plain object, given here by its fields;
  \<^verbatim>\<open>Object.setPrototypeOf(obj, proto)\<close> makes \<open>proto\<close> its prototype and leaves the
  fields alone.
\<close>

definition Object_setPrototypeOf :: "fields \<Rightarrow> 'p \<Rightarrow> 'p js_object" where
  "Object_setPrototypeOf obj proto = \<lparr>properties = obj, prototype = proto\<rparr>"

definition getJSON :: "fields \<Rightarrow> string" where
  "getJSON obj = JSON_stringify obj"

definition fromJSON :: "'p \<Rightarrow> string \<Rightarrow> 'p js_object option" where
  "fromJSON proto json =
     (case JSON_parse json of
        None \<Rightarrow> None
      | Some obj \<Rightarrow> Some (Object_setPrototypeOf obj proto))"

text \<open>
  A prototype is taken as the methods that it and the objects behind it provide, each a
  function of the fields of \<^verbatim>\<open>this\<close>. A call
  \<^verbatim>\<open>obj.name()\<close> looks \<open>name\<close> up in the object's own properties first, where it would
  find a number and throw a \<^verbatim>\<open>TypeError\<close> (\<open>None\<close>), and then in the prototype.
\<close>

type_synonym 'r methods = "string \<rightharpoonup> (fields \<Rightarrow> 'r)"

definition invoke_method :: "'r methods js_object \<Rightarrow> string \<Rightarrow> 'r option" where
  "invoke_method obj name =
     (if name \<in> fst ` set (properties obj) then None
      else (case prototype obj name of None \<Rightarrow> None | Some m \<Rightarrow> Some (m (properties obj))))"

text \<open>
  The method \<^verbatim>\<open>getArea\<close> of \<^verbatim>\<open>Rectangle\<close>: \<^verbatim>\<open>this.width * this.height\<close>, with \<open>None\<close>
  for the \<^verbatim>\<open>NaN\<close> that a missing field gives.
\<close>

definition getArea :: "fields \<Rightarrow> int option" where
  "getArea this =
     (case (map_of this ''width'', map_of this ''height'') of
        (Some w, Some h) \<Rightarrow> Some (w * h)
      | _ \<Rightarrow> None)"

section \<open>Properties of the selector builder\<close>

subsection \<open>The order check\<close>

lemma indexOf_order: "indexOf order c = int (category_index c)"
  by (cases c) (simp_all add: order_def)

lemma later_in_order:
  "includes_elem (slice_from (indexOf order a + 1) order) c \<longleftrightarrow> category_index a < category_index c"
  by (cases a; cases c) (simp_all add: order_def includes_elem_def slice_from_def clamp_index_def)

lemma every_iff: "every p xs \<longleftrightarrow> (\<forall>i<length xs. p (xs ! i) i)"
  by (simp add: every_def list_all_length nth_enumerate_eq)

lemma slice_prefix: "i \<le> length xs \<Longrightarrow> slice 0 (int i) xs = take i xs"
  by (simp add: slice_def clamp_index_def)

lemma isValidOrder_iff:
  "isValidOrder b \<longleftrightarrow>
     (\<forall>j<length (selectors b). \<forall>i<j.
        category_index (ptype (selectors b ! i)) \<le> category_index (ptype (selectors b ! j)))"
  by (auto simp add: isValidOrder_def every_iff slice_prefix later_in_order Let_def not_less)

lemma isValidOrder_inverted: "isValidOrder b \<longleftrightarrow> \<not> inverted_pair (selectors b)"
  unfolding isValidOrder_iff inverted_pair_def not_less [symmetric] by simp

lemma isValidOrder_sorted:
  "isValidOrder b \<longleftrightarrow> sorted (map (\<lambda>p. category_index (ptype p)) (selectors b))"
  by (auto simp add: isValidOrder_iff sorted_iff_nth_mono_less)

lemma check_and_return_cases:
  "check_and_return b = (if isValidOrder b then Returned b else Thrown SelectorOrderError b)"
  by (simp add: check_and_return_def checkOrder_def)


lemma stringify_fst:
  "fst (stringify b) =
     (if selectors b \<noteq> [] then Some (concat (map pvalue (selectors b)))
      else if combineSelectors b \<noteq> [] then Some (concat (map text_of (combineSelectors b)))
      else None)"
  by (simp add: stringify_def join_def join_nullable_def)

lemma stringify_snd: "snd (stringify b) = b\<lparr>selectors := [], combineSelectors := []\<rparr>"
  by (simp add: stringify_def)


lemma invoke_cases:
  "invoke c b =
     (if blocked c b then Thrown DuplicateSelectorPartError b
      else if call_category c = PseudoElement \<or> isValidOrder (appended c b) then Returned (appended c b)
      else Thrown SelectorOrderError (appended c b))"
  by (cases c)
    (simp_all add: element_def id_sel_def class_sel_def attr_def pseudoClass_def
      pseudoElement_def check_and_return_cases push_selector_def appended_def part_of_def)

lemma blocked_appended:
  "blocked c' (appended c b) \<longleftrightarrow>
     blocked c' b \<or>
     (call_category c' = call_category c \<and> call_category c \<in> {Element, Id, PseudoElement})"
  by (cases c; cases c') (simp_all add: appended_def)

lemma selectors_appended: "selectors (appended c b) = selectors b @ [part_of c]"
  by (simp add: appended_def)

lemma combineSelectors_appended: "combineSelectors (appended c b) = combineSelectors b"
  by (simp add: appended_def)

lemma ptype_part_of: "ptype (part_of c) = call_category c"
  by (simp add: part_of_def)

lemma pvalue_part_of: "pvalue (part_of c) = fragment c"
  by (simp add: part_of_def)

lemma run_valid:
  assumes "sorted (map (\<lambda>p. category_index (ptype p)) (selectors b) @ map (\<lambda>c. category_index (call_category c)) cs)"
    and "\<forall>c\<in>set cs. \<not> blocked c b"
    and "\<forall>k\<in>{Element, Id, PseudoElement}. count_list (map call_category cs) k \<le> 1"
  shows "\<exists>b'. run cs b = Returned b' \<and> selectors b' = selectors b @ map part_of cs \<and>
    combineSelectors b' = combineSelectors b"
  using assms
proof (induction cs arbitrary: b)
  case Nil
  then show ?case by simp
next
  case (Cons c cs)
  let ?b1 = "appended c b"
  have nb: "\<not> blocked c b" using Cons.prems(2) by simp
  have "sorted (map (\<lambda>p. category_index (ptype p)) (selectors b @ [part_of c]))"
    using Cons.prems(1) by (simp add: sorted_append ptype_part_of)
  then have "isValidOrder ?b1"
    by (simp add: isValidOrder_sorted selectors_appended)
  with nb have step: "invoke c b = Returned ?b1"
    by (simp add: invoke_cases)
  have s1: "sorted (map (\<lambda>p. category_index (ptype p)) (selectors ?b1) @ map (\<lambda>c. category_index (call_category c)) cs)"
    using Cons.prems(1) by (simp add: selectors_appended ptype_part_of)
  have cnt: "\<forall>k\<in>{Element, Id, PseudoElement}. count_list (map call_category cs) k \<le> 1"
    using Cons.prems(3) by (auto split: if_splits)
  have fresh: "call_category c \<in> {Element, Id, PseudoElement} \<Longrightarrow> call_category c \<notin> set (map call_category cs)"
  proof -
    assume k: "call_category c \<in> {Element, Id, PseudoElement}"
    with Cons.prems(3) have "count_list (map call_category (c # cs)) (call_category c) \<le> 1"
      by blast
    then have "count_list (map call_category cs) (call_category c) = 0" by simp
    then show ?thesis by (simp add: count_list_0_iff)
  qed
  have nb1: "\<forall>c'\<in>set cs. \<not> blocked c' ?b1"
  proof
    fix c' assume c': "c' \<in> set cs"
    then have "\<not> blocked c' b" using Cons.prems(2) by simp
    moreover have "\<not> (call_category c' = call_category c \<and> call_category c \<in> {Element, Id, PseudoElement})"
      using fresh c' by force
    ultimately show "\<not> blocked c' ?b1" by (simp only: blocked_appended) blast
  qed
  from Cons.IH [OF s1 nb1 cnt] obtain b' where
    "run cs ?b1 = Returned b'" "selectors b' = selectors ?b1 @ map part_of cs"
    "combineSelectors b' = combineSelectors ?b1" by blast
  with step show ?case by (simp add: selectors_appended combineSelectors_appended)
qed

lemma not_blocked_new: "\<not> blocked c SelectorBuilderClass"
  by (cases c) (simp_all add: SelectorBuilderClass_def)

lemma selectors_new: "selectors SelectorBuilderClass = []"
  by (simp add: SelectorBuilderClass_def)

lemma inverted_pair_sorted:
  "inverted_pair ps \<longleftrightarrow> \<not> sorted (map (\<lambda>p. category_index (ptype p)) ps)"
  using isValidOrder_inverted [of "SelectorBuilderClass\<lparr>selectors := ps\<rparr>"]
    isValidOrder_sorted [of "SelectorBuilderClass\<lparr>selectors := ps\<rparr>"]
  by simp

lemma inverted_pair_snoc: "inverted_pair ps \<Longrightarrow> inverted_pair (ps @ [p])"
  by (simp add: inverted_pair_sorted sorted_append)

lemma perform_element_flag: "element_flag (flags b) \<Longrightarrow> element_flag (flags (perform a b))"
proof (cases a)
  case (Invoke c)
  assume "element_flag (flags b)"
  then show ?thesis using Invoke by (cases c) (simp_all add: invoke_cases appended_def)
next
  case Stringify
  assume "element_flag (flags b)"
  then show ?thesis using Stringify by (simp add: stringify_snd)
qed

lemma perform_id_flag: "id_flag (flags b) \<Longrightarrow> id_flag (flags (perform a b))"
proof (cases a)
  case (Invoke c)
  assume "id_flag (flags b)"
  then show ?thesis using Invoke by (cases c) (simp_all add: invoke_cases appended_def)
next
  case Stringify
  assume "id_flag (flags b)"
  then show ?thesis using Stringify by (simp add: stringify_snd)
qed

lemma perform_pseudoElement_flag:
  "pseudoElement_flag (flags b) \<Longrightarrow> pseudoElement_flag (flags (perform a b))"
proof (cases a)
  case (Invoke c)
  assume "pseudoElement_flag (flags b)"
  then show ?thesis using Invoke by (cases c) (simp_all add: invoke_cases appended_def)
next
  case Stringify
  assume "pseudoElement_flag (flags b)"
  then show ?thesis using Stringify by (simp add: stringify_snd)
qed

lemma perform_all_flags:
  "element_flag (flags b) \<Longrightarrow> element_flag (flags (perform_all acts b))"
  "id_flag (flags b) \<Longrightarrow> id_flag (flags (perform_all acts b))"
  "pseudoElement_flag (flags b) \<Longrightarrow> pseudoElement_flag (flags (perform_all acts b))"
  unfolding perform_all_def
  by (induction acts arbitrary: b)
    (simp_all add: perform_element_flag perform_id_flag perform_pseudoElement_flag)

lemma blocked_after_invoke: "c \<in> {CallElement v, CallId v, CallPseudoElement v} \<Longrightarrow>
  blocked c (state_of (invoke c b))"
  by (auto simp add: invoke_cases appended_def)

subsection \<open>Rendering a valid chain of calls\<close>

text \<open>
  Claim C1. A chain of category calls on a new builder that is a valid ordering (the
  categories never step back in the enumeration element, id, class, attribute,
  pseudoClass, pseudoElement, and element, id and pseudoElement occur at most once)
  raises no error, and \<^verbatim>\<open>stringify\<close> then returns the fragments in call order,
  concatenated: the value itself for element, \<^verbatim>\<open>#\<close>, \<^verbatim>\<open>.\<close>, \<^verbatim>\<open>[\<close>...\<^verbatim>\<open>]\<close>, \<^verbatim>\<open>:\<close> and
  \<^verbatim>\<open>::\<close> before (around) the value for the others. For the chain of no call at all,
  which the facade cannot make, there is no fragment and the result is \<^verbatim>\<open>null\<close>.
\<close>

theorem render_valid_ordering:
  assumes "valid_ordering cs"
  shows "error_of (run cs SelectorBuilderClass) = None \<and>
         fst (stringify (state_of (run cs SelectorBuilderClass))) =
           (if cs = [] then None else Some (concat (map fragment cs)))"
proof -
  have "\<exists>b'. run cs SelectorBuilderClass = Returned b' \<and>
          selectors b' = selectors SelectorBuilderClass @ map part_of cs \<and>
          combineSelectors b' = combineSelectors SelectorBuilderClass"
    using assms by (intro run_valid) (simp_all add: valid_ordering_def not_blocked_new selectors_new)
  then obtain b' where r: "run cs SelectorBuilderClass = Returned b'"
    and s: "selectors b' = map part_of cs" and c: "combineSelectors b' = []"
    by (auto simp add: selectors_new SelectorBuilderClass_def)
  show ?thesis
    using r s c by (simp add: stringify_fst comp_def pvalue_part_of)
qed

theorem render_valid_ordering_witness:
  "valid_ordering [CallElement ''a'', CallId ''main'', CallClass ''btn'', CallClass ''big'',
      CallAttr ''href'', CallPseudoClass ''focus'', CallPseudoElement ''before''] \<and>
   error_of (run [CallElement ''a'', CallId ''main'', CallClass ''btn'', CallClass ''big'',
      CallAttr ''href'', CallPseudoClass ''focus'', CallPseudoElement ''before'']
      SelectorBuilderClass) = None \<and>
   fst (stringify (state_of (run [CallElement ''a'', CallId ''main'', CallClass ''btn'',
      CallClass ''big'', CallAttr ''href'', CallPseudoClass ''focus'',
      CallPseudoElement ''before''] SelectorBuilderClass))) =
     Some ''a#main.btn.big[href]:focus::before''"
proof -
  have h: "valid_ordering [CallElement ''a'', CallId ''main'', CallClass ''btn'', CallClass ''big'',
      CallAttr ''href'', CallPseudoClass ''focus'', CallPseudoElement ''before'']"
    by (simp add: valid_ordering_def)
  show ?thesis using render_valid_ordering [OF h] h by simp
qed

subsection \<open>When the order check throws\<close>

text \<open>
  Claim C2. \<^verbatim>\<open>checkOrder\<close> throws exactly when the parts hold an inverted pair: an
  earlier part whose category index is strictly greater than that of a later one.
  Whatever the state of the builder, a call of \<^verbatim>\<open>element\<close>, \<^verbatim>\<open>id\<close>,
  \<^verbatim>\<open>class\<close>, \<^verbatim>\<open>attr\<close> or \<^verbatim>\<open>pseudoClass\<close> throws the order error exactly when it has
  appended its part and the parts then hold an inverted pair (\<^verbatim>\<open>element\<close> and \<^verbatim>\<open>id\<close>
  append nothing when their duplicate check throws first). If the categories after
  the append are non-decreasing (equal categories included), no order error is thrown.
\<close>

theorem order_error_iff_inverted_pair:
  "(checkOrder b = Inl SelectorOrderError \<longleftrightarrow> inverted_pair (selectors b)) \<and>
   (call_category c \<noteq> PseudoElement \<longrightarrow>
      (error_of (invoke c b) = Some SelectorOrderError \<longleftrightarrow>
         selectors (state_of (invoke c b)) = selectors b @ [part_of c] \<and>
         inverted_pair (selectors (state_of (invoke c b))))) \<and>
   (sorted (map (\<lambda>p. category_index (ptype p)) (selectors b @ [part_of c])) \<longrightarrow>
      error_of (invoke c b) \<noteq> Some SelectorOrderError)"
  by (simp add: checkOrder_def invoke_cases isValidOrder_inverted selectors_appended
      inverted_pair_sorted)

theorem order_error_iff_inverted_pair_witness:
  "error_of (invoke (CallId ''main'') (state_of (class_sel ''c'' SelectorBuilderClass)))
     = Some SelectorOrderError \<and>
   inverted_pair (selectors (state_of
     (invoke (CallId ''main'') (state_of (class_sel ''c'' SelectorBuilderClass))))) \<and>
   sorted (map (\<lambda>p. category_index (ptype p))
     (selectors (state_of (class_sel ''c'' SelectorBuilderClass)) @ [part_of (CallClass ''d'')])) \<and>
   error_of (invoke (CallClass ''d'') (state_of (class_sel ''c'' SelectorBuilderClass)))
     \<noteq> Some SelectorOrderError"
proof -
  have e: "error_of (invoke (CallId ''main'') (state_of (class_sel ''c'' SelectorBuilderClass)))
     = Some SelectorOrderError"
    by code_simp
  have s: "sorted (map (\<lambda>p. category_index (ptype p))
     (selectors (state_of (class_sel ''c'' SelectorBuilderClass)) @ [part_of (CallClass ''d'')]))"
    by code_simp
  have c: "call_category (CallId ''main'') \<noteq> PseudoElement" by simp
  have i: "inverted_pair (selectors (state_of
     (invoke (CallId ''main'') (state_of (class_sel ''c'' SelectorBuilderClass)))))"
    using order_error_iff_inverted_pair
      [where c = "CallId ''main''" and b = "state_of (class_sel ''c'' SelectorBuilderClass)"] c e
    by blast
  have n: "error_of (invoke (CallClass ''d'') (state_of (class_sel ''c'' SelectorBuilderClass)))
     \<noteq> Some SelectorOrderError"
    using order_error_iff_inverted_pair
      [where c = "CallClass ''d''" and b = "state_of (class_sel ''c'' SelectorBuilderClass)"] s
    by blast
  show ?thesis using e i s n by blast
qed

subsection \<open>Singleton parts\<close>

text \<open>
  Claim C3. Once \<^verbatim>\<open>element\<close> has been called on a builder, with any outcome and
  whatever the caller does to the builder afterwards (appending calls, \<^verbatim>\<open>stringify\<close>,
  exceptions caught), a further call of \<^verbatim>\<open>element\<close> throws the duplicate error, for
  every value; the same holds for \<^verbatim>\<open>id\<close> and for \<^verbatim>\<open>pseudoElement\<close>. In no state do
  \<^verbatim>\<open>class\<close>, \<^verbatim>\<open>attr\<close> or \<^verbatim>\<open>pseudoClass\<close> throw the duplicate error.
\<close>

theorem duplicate_singleton_part:
  "error_of (element w (perform_all acts (state_of (element v b)))) = Some DuplicateSelectorPartError \<and>
   error_of (id_sel w (perform_all acts (state_of (id_sel v b)))) = Some DuplicateSelectorPartError \<and>
   error_of (pseudoElement w (perform_all acts (state_of (pseudoElement v b))))
     = Some DuplicateSelectorPartError \<and>
   error_of (class_sel v b) \<noteq> Some DuplicateSelectorPartError \<and>
   error_of (attr v b) \<noteq> Some DuplicateSelectorPartError \<and>
   error_of (pseudoClass v b) \<noteq> Some DuplicateSelectorPartError"
proof -
  have e: "element_flag (flags (perform_all acts (state_of (element v b))))"
    using blocked_after_invoke [of "CallElement v" v b] by (intro perform_all_flags) simp
  have i: "id_flag (flags (perform_all acts (state_of (id_sel v b))))"
    using blocked_after_invoke [of "CallId v" v b] by (intro perform_all_flags) simp
  have p: "pseudoElement_flag (flags (perform_all acts (state_of (pseudoElement v b))))"
    using blocked_after_invoke [of "CallPseudoElement v" v b] by (intro perform_all_flags) simp
  have "error_of (element w (perform_all acts (state_of (element v b)))) = Some DuplicateSelectorPartError"
    using e by (simp add: element_def)
  moreover have "error_of (id_sel w (perform_all acts (state_of (id_sel v b)))) = Some DuplicateSelectorPartError"
    using i by (simp add: id_sel_def)
  moreover have "error_of (pseudoElement w (perform_all acts (state_of (pseudoElement v b))))
     = Some DuplicateSelectorPartError"
    using p by (simp add: pseudoElement_def)
  moreover have "error_of (class_sel v b) \<noteq> Some DuplicateSelectorPartError"
    using invoke_cases [of "CallClass v" b] by simp
  moreover have "error_of (attr v b) \<noteq> Some DuplicateSelectorPartError"
    using invoke_cases [of "CallAttr v" b] by simp
  moreover have "error_of (pseudoClass v b) \<noteq> Some DuplicateSelectorPartError"
    using invoke_cases [of "CallPseudoClass v" b] by simp
  ultimately show ?thesis by blast
qed

theorem duplicate_singleton_part_witness:
  "error_of (element ''span''
     (perform_all [Invoke (CallClass ''c''), Stringify] (state_of (element ''div'' SelectorBuilderClass))))
     = Some DuplicateSelectorPartError \<and>
   error_of (class_sel ''d'' (state_of (class_sel ''c'' SelectorBuilderClass)))
     \<noteq> Some DuplicateSelectorPartError"
  using duplicate_singleton_part
    [where w = "''span''" and acts = "[Invoke (CallClass ''c''), Stringify]" and v = "''div''"
      and b = SelectorBuilderClass]
    duplicate_singleton_part
    [where v = "''d''" and b = "state_of (class_sel ''c'' SelectorBuilderClass)"]
  by blast

text \<open>
  Claim C5. On a builder whose \<^verbatim>\<open>pseudoElement\<close> flag is not set, \<^verbatim>\<open>pseudoElement\<close>
  returns and appends its part, whatever parts are there already; in no state does it
  throw the order error. It is the only appending method with no order check: on a
  builder whose parts hold an inverted pair each of the other five throws (the order
  error, unless the duplicate error comes first).
\<close>

theorem pseudoElement_skips_order_check:
  "(\<not> pseudoElement_flag (flags b) \<longrightarrow>
      error_of (pseudoElement v b) = None \<and>
      selectors (state_of (pseudoElement v b)) =
        selectors b @ [\<lparr>ptype = PseudoElement, pvalue = ''::'' @ v\<rparr>]) \<and>
   error_of (pseudoElement v b) \<noteq> Some SelectorOrderError \<and>
   (call_category c \<noteq> PseudoElement \<longrightarrow> inverted_pair (selectors b) \<longrightarrow>
      error_of (invoke c b) \<noteq> Some DuplicateSelectorPartError \<longrightarrow>
      error_of (invoke c b) = Some SelectorOrderError)"
proof -
  have "inverted_pair (selectors b) \<Longrightarrow> \<not> isValidOrder (appended c b)"
    by (simp add: isValidOrder_inverted selectors_appended inverted_pair_snoc)
  then have "call_category c \<noteq> PseudoElement \<longrightarrow> inverted_pair (selectors b) \<longrightarrow>
      error_of (invoke c b) \<noteq> Some DuplicateSelectorPartError \<longrightarrow>
      error_of (invoke c b) = Some SelectorOrderError"
    by (simp add: invoke_cases)
  moreover have "error_of (pseudoElement v b) \<noteq> Some SelectorOrderError"
    by (simp add: pseudoElement_def)
  moreover have "\<not> pseudoElement_flag (flags b) \<longrightarrow>
      error_of (pseudoElement v b) = None \<and>
      selectors (state_of (pseudoElement v b)) =
        selectors b @ [\<lparr>ptype = PseudoElement, pvalue = ''::'' @ v\<rparr>]"
    by (simp add: pseudoElement_def push_selector_def)
  ultimately show ?thesis by blast
qed

theorem pseudoElement_skips_order_check_witness:
  "\<not> pseudoElement_flag (flags (state_of (pseudoClass ''hover'' SelectorBuilderClass))) \<and>
   error_of (pseudoElement ''before'' (state_of (pseudoClass ''hover'' SelectorBuilderClass))) = None \<and>
   call_category (CallClass ''d'') \<noteq> PseudoElement \<and>
   inverted_pair (selectors (state_of (id_sel ''main'' (state_of (class_sel ''c'' SelectorBuilderClass))))) \<and>
   error_of (invoke (CallClass ''d'')
       (state_of (id_sel ''main'' (state_of (class_sel ''c'' SelectorBuilderClass)))))
     = Some SelectorOrderError"
proof -
  have f: "\<not> pseudoElement_flag (flags (state_of (pseudoClass ''hover'' SelectorBuilderClass)))"
    by code_simp
  have c: "call_category (CallClass ''d'') \<noteq> PseudoElement" by simp
  have "\<not> sorted (map (\<lambda>p. category_index (ptype p))
     (selectors (state_of (id_sel ''main'' (state_of (class_sel ''c'' SelectorBuilderClass))))))"
    by code_simp
  then have i: "inverted_pair
     (selectors (state_of (id_sel ''main'' (state_of (class_sel ''c'' SelectorBuilderClass)))))"
    by (simp add: inverted_pair_sorted)
  have d: "error_of (invoke (CallClass ''d'')
       (state_of (id_sel ''main'' (state_of (class_sel ''c'' SelectorBuilderClass)))))
     \<noteq> Some DuplicateSelectorPartError"
    by code_simp
  show ?thesis
    using pseudoElement_skips_order_check
      [where b = "state_of (pseudoClass ''hover'' SelectorBuilderClass)" and v = "''before''"]
      pseudoElement_skips_order_check
      [where c = "CallClass ''d''" and
        b = "state_of (id_sel ''main'' (state_of (class_sel ''c'' SelectorBuilderClass)))"]
      f c i d
    by blast
qed

subsection \<open>The state an order error leaves\<close>

text \<open>
  Claim C6. When an appending call throws the order error, the part is already in
  \<^verbatim>\<open>selectors\<close>: the builder that the catching caller sees holds the earlier parts and
  then the offending one, and \<^verbatim>\<open>stringify\<close> on it renders all of them.
\<close>

theorem order_error_after_insert:
  "error_of (invoke c b) = Some SelectorOrderError \<Longrightarrow>
     selectors (state_of (invoke c b)) = selectors b @ [part_of c] \<and>
     fst (stringify (state_of (invoke c b))) =
       Some (concat (map pvalue (selectors b)) @ fragment c)"
  by (simp add: invoke_cases selectors_appended stringify_fst pvalue_part_of split: if_splits)

theorem order_error_after_insert_witness:
  "error_of (invoke (CallId ''main'') (state_of (class_sel ''c'' SelectorBuilderClass)))
     = Some SelectorOrderError \<and>
   fst (stringify (state_of
     (invoke (CallId ''main'') (state_of (class_sel ''c'' SelectorBuilderClass)))))
     = Some ''.c#main''"
proof -
  have e: "error_of (invoke (CallId ''main'') (state_of (class_sel ''c'' SelectorBuilderClass)))
     = Some SelectorOrderError"
    by code_simp
  have r: "concat (map pvalue (selectors (state_of (class_sel ''c'' SelectorBuilderClass))))
     @ fragment (CallId ''main'') = ''.c#main''"
    by code_simp
  show ?thesis
    using order_error_after_insert [OF e] e r by simp
qed

subsection \<open>\<^verbatim>\<open>stringify\<close>\<close>

text \<open>
  Claim C7. \<^verbatim>\<open>stringify\<close> returns the concatenated parts when there are parts, whatever
  \<^verbatim>\<open>combineSelectors\<close> holds; with no parts and a non-empty \<^verbatim>\<open>combineSelectors\<close> it
  returns the concatenation of \<^verbatim>\<open>combineSelectors\<close>; with both empty it returns \<^verbatim>\<open>null\<close>.
  It has no throwing path.
\<close>

theorem stringify_prefers_parts:
  "(selectors b \<noteq> [] \<longrightarrow> fst (stringify b) = Some (concat (map pvalue (selectors b)))) \<and>
   (selectors b = [] \<and> combineSelectors b \<noteq> [] \<longrightarrow>
      fst (stringify b) = Some (concat (map text_of (combineSelectors b)))) \<and>
   (selectors b = [] \<and> combineSelectors b = [] \<longrightarrow> fst (stringify b) = None)"
  by (simp add: stringify_fst)

theorem stringify_prefers_parts_witness:
  "fst (stringify \<lparr>selectors = [\<lparr>ptype = Class, pvalue = ''.c''\<rparr>],
      combineSelectors = [Some ''a'', Some '' + '', Some ''b''],
      flags = \<lparr>element_flag = False, id_flag = False, pseudoElement_flag = False\<rparr>\<rparr>)
     = Some ''.c'' \<and>
   fst (stringify \<lparr>selectors = [],
      combineSelectors = [Some ''a'', Some '' + '', Some ''b''],
      flags = \<lparr>element_flag = False, id_flag = False, pseudoElement_flag = False\<rparr>\<rparr>)
     = Some ''a + b'' \<and>
   fst (stringify SelectorBuilderClass) = None"
  using stringify_prefers_parts [of "\<lparr>selectors = [\<lparr>ptype = Class, pvalue = ''.c''\<rparr>],
      combineSelectors = [Some ''a'', Some '' + '', Some ''b''],
      flags = \<lparr>element_flag = False, id_flag = False, pseudoElement_flag = False\<rparr>\<rparr>"]
    stringify_prefers_parts [of "\<lparr>selectors = [],
      combineSelectors = [Some ''a'', Some '' + '', Some ''b''],
      flags = \<lparr>element_flag = False, id_flag = False, pseudoElement_flag = False\<rparr>\<rparr>"]
    stringify_prefers_parts [of SelectorBuilderClass]
  by (simp add: SelectorBuilderClass_def)

text \<open>
  Claim C8. \<^verbatim>\<open>stringify\<close> leaves \<^verbatim>\<open>selectors\<close> and \<^verbatim>\<open>combineSelectors\<close> empty and the
  flags as they were. So a second \<^verbatim>\<open>stringify\<close> returns \<^verbatim>\<open>null\<close>, and \<^verbatim>\<open>element\<close>,
  \<^verbatim>\<open>id\<close> or \<^verbatim>\<open>pseudoElement\<close> called before the \<^verbatim>\<open>stringify\<close> still throws the
  duplicate error when called again after it.
\<close>

theorem stringify_resets_sequences_only:
  "selectors (snd (stringify b)) = [] \<and>
   combineSelectors (snd (stringify b)) = [] \<and>
   flags (snd (stringify b)) = flags b \<and>
   fst (stringify (snd (stringify b))) = None \<and>
   error_of (element w (snd (stringify (state_of (element v b))))) = Some DuplicateSelectorPartError \<and>
   error_of (id_sel w (snd (stringify (state_of (id_sel v b))))) = Some DuplicateSelectorPartError \<and>
   error_of (pseudoElement w (snd (stringify (state_of (pseudoElement v b)))))
     = Some DuplicateSelectorPartError"
proof -
  have "blocked (CallElement w) (snd (stringify (state_of (invoke (CallElement v) b))))"
    "blocked (CallId w) (snd (stringify (state_of (invoke (CallId v) b))))"
    "blocked (CallPseudoElement w) (snd (stringify (state_of (invoke (CallPseudoElement v) b))))"
    by (simp_all add: stringify_snd invoke_cases appended_def)
  then show ?thesis
    using invoke_cases [of "CallElement w"] invoke_cases [of "CallId w"]
      invoke_cases [of "CallPseudoElement w"]
    by (simp add: stringify_snd stringify_fst)
qed

theorem stringify_resets_sequences_only_witness:
  "fst (stringify (state_of (element ''div'' SelectorBuilderClass))) = Some ''div'' \<and>
   fst (stringify (snd (stringify (state_of (element ''div'' SelectorBuilderClass))))) = None \<and>
   error_of (element ''span'' (snd (stringify (state_of (element ''div'' SelectorBuilderClass)))))
     = Some DuplicateSelectorPartError"
proof -
  have "fst (stringify (state_of (element ''div'' SelectorBuilderClass))) = Some ''div''"
    by code_simp
  then show ?thesis
    using stringify_resets_sequences_only
      [where b = "state_of (element ''div'' SelectorBuilderClass)"]
      stringify_resets_sequences_only
      [where b = SelectorBuilderClass and v = "''div''" and w = "''span''"]
    by blast
qed

section \<open>Properties of \<^verbatim>\<open>combine\<close>\<close>

lemma stringify_at_eq:
  "stringify_at r h = (fst (stringify (h ! r)), h[r := cleared (h ! r)])"
  by (simp add: stringify_at_def stringify_def cleared_def Let_def)

lemma combine_distinct:
  assumes "this < length h" "left < length h" "right < length h"
    and "this \<noteq> left" "this \<noteq> right" "left \<noteq> right"
  shows "combine this left c right h =
    (this, h[left := cleared (h ! left), right := cleared (h ! right),
       this := (h ! this)\<lparr>combineSelectors := combineSelectors (h ! this) @
         [fst (stringify (h ! left)), Some ('' '' @ c @ '' ''), fst (stringify (h ! right))]\<rparr>])"
  using assms
  by (simp add: combine_def stringify_at_eq push_combine_def list_update_swap [of this])

lemma combine_operands:
  assumes "this < length h" "left < length h" "right < length h"
    and "this \<noteq> left" "this \<noteq> right"
  shows "snd (combine this left c right h) ! left = cleared (h ! left) \<and>
         snd (combine this left c right h) ! right = cleared (h ! right)"
  using assms
  by (cases "left = right")
     (simp_all add: combine_def stringify_at_eq push_combine_def cleared_def)

lemma consumed_cleared: "r < length h \<Longrightarrow> h ! r = cleared b \<Longrightarrow> consumed r h"
  by (simp add: consumed_def cleared_def stringify_at_eq stringify_fst)

lemma length_push_combine: "length (push_combine t r h) = length h"
  by (simp add: push_combine_def)

lemma combine_length: "length (snd (combine this left c right h)) = length h"
  by (simp add: combine_def stringify_at_eq length_push_combine Let_def)

lemma facade_combine:
  "cssSelectorBuilder_combine left c right h =
     combine (length h) left c right (h @ [SelectorBuilderClass])"
  by (simp add: cssSelectorBuilder_combine_def new_builder_def)

lemma then_call_Inr: "m h = (Inr a, h') \<Longrightarrow> then_call m f h = f a h'"
  by (simp add: then_call_def)


lemma pair_with_fst: "fst p = a \<Longrightarrow> p = (a, snd p)"
  by (cases p) simp

lemma worked_example_renders:
  "fst (worked_example []) =
     Inr (Some ''div#main.container.draggable + table#data ~ tr:nth-of-type(even)   td:nth-of-type(even)'')"
proof -
  let ?A = "then_call (then_call (then_call (cssSelectorBuilder_element ''div'')
       (call_method (id_sel ''main''))) (call_method (class_sel ''container'')))
       (call_method (class_sel ''draggable''))"
  let ?B = "then_call (cssSelectorBuilder_element ''table'') (call_method (id_sel ''data''))"
  let ?C = "then_call (cssSelectorBuilder_element ''tr'')
       (call_method (pseudoClass ''nth-of-type(even)''))"
  let ?D = "then_call (cssSelectorBuilder_element ''td'')
       (call_method (pseudoClass ''nth-of-type(even)''))"
  define h1 where "h1 = snd (?A [])"
  have "fst (?A []) = Inr 0" by code_simp
  then have f1: "?A [] = (Inr 0, h1)" unfolding h1_def by (rule pair_with_fst)
  define h2 where "h2 = snd (?B h1)"
  have "fst (?B h1) = Inr 1" unfolding h1_def by code_simp
  then have f2: "?B h1 = (Inr 1, h2)" unfolding h2_def by (rule pair_with_fst)
  define h3 where "h3 = snd (?C h2)"
  have "fst (?C h2) = Inr 2" unfolding h2_def h1_def by code_simp
  then have f3: "?C h2 = (Inr 2, h3)" unfolding h3_def by (rule pair_with_fst)
  define h4 where "h4 = snd (?D h3)"
  have "fst (?D h3) = Inr 3" unfolding h3_def h2_def h1_def by code_simp
  then have f4: "?D h3 = (Inr 3, h4)" unfolding h4_def by (rule pair_with_fst)
  define h5 where "h5 = snd (returning (cssSelectorBuilder_combine 2 '' '' 3) h4)"
  have "fst (returning (cssSelectorBuilder_combine 2 '' '' 3) h4) = Inr 4"
    unfolding h4_def h3_def h2_def h1_def by code_simp
  then have f5: "returning (cssSelectorBuilder_combine 2 '' '' 3) h4 = (Inr 4, h5)"
    unfolding h5_def by (rule pair_with_fst)
  define h6 where "h6 = snd (returning (cssSelectorBuilder_combine 1 ''~'' 4) h5)"
  have "fst (returning (cssSelectorBuilder_combine 1 ''~'' 4) h5) = Inr 5"
    unfolding h5_def h4_def h3_def h2_def h1_def by code_simp
  then have f6: "returning (cssSelectorBuilder_combine 1 ''~'' 4) h5 = (Inr 5, h6)"
    unfolding h6_def by (rule pair_with_fst)
  define h7 where "h7 = snd (returning (cssSelectorBuilder_combine 0 ''+'' 5) h6)"
  have "fst (returning (cssSelectorBuilder_combine 0 ''+'' 5) h6) = Inr 6"
    unfolding h6_def h5_def h4_def h3_def h2_def h1_def by code_simp
  then have f7: "returning (cssSelectorBuilder_combine 0 ''+'' 5) h6 = (Inr 6, h7)"
    unfolding h7_def by (rule pair_with_fst)
  have f8: "fst (returning (stringify_at 6) h7) =
     Inr (Some ''div#main.container.draggable + table#data ~ tr:nth-of-type(even)   td:nth-of-type(even)'')"
    unfolding h7_def h6_def h5_def h4_def h3_def h2_def h1_def by code_simp
  show ?thesis
    unfolding worked_example_def
    by (simp only:
        then_call_Inr [where m = ?A, OF f1] then_call_Inr [where m = ?B, OF f2]
        then_call_Inr [where m = ?C, OF f3] then_call_Inr [where m = ?D, OF f4]
        then_call_Inr [where m = "returning (cssSelectorBuilder_combine 2 '' '' 3)", OF f5]
        then_call_Inr [where m = "returning (cssSelectorBuilder_combine 1 ''~'' 4)", OF f6]
        then_call_Inr [where m = "returning (cssSelectorBuilder_combine 0 ''+'' 5)", OF f7] f8)
qed

text \<open>
  Claim C4. For two different builders \<open>left\<close> and \<open>right\<close> that each render to a
  string, and any string \<open>c\<close>, the facade's \<^verbatim>\<open>combine(left, c, right)\<close> returns a new
  builder whose \<^verbatim>\<open>combineSelectors\<close> is the rendering of \<open>left\<close>, then \<open>c\<close> between two
  spaces, then the rendering of \<open>right\<close>; \<open>c\<close> is not examined. \<^verbatim>\<open>stringify\<close> on the new
  builder returns the three joined. The nested example of the documentation renders as
  the documentation says, with three spaces where the combinator is a space.
\<close>

theorem combine_renders_operands:
  assumes "left < length h" "right < length h" "left \<noteq> right"
    and "fst (stringify (h ! left)) = Some l" "fst (stringify (h ! right)) = Some r"
  shows "fst (cssSelectorBuilder_combine left c right h) = length h \<and>
    combineSelectors (snd (cssSelectorBuilder_combine left c right h) ! length h) =
      [Some l, Some ('' '' @ c @ '' ''), Some r] \<and>
    fst (stringify_at (length h) (snd (cssSelectorBuilder_combine left c right h))) =
      Some (l @ '' '' @ c @ '' '' @ r) \<and>
    fst (worked_example []) =
      Inr (Some ''div#main.container.draggable + table#data ~ tr:nth-of-type(even)   td:nth-of-type(even)'')"
proof -
  have "combine (length h) left c right (h @ [SelectorBuilderClass]) =
    (length h, (h @ [SelectorBuilderClass])[left := cleared (h ! left), right := cleared (h ! right),
       length h := SelectorBuilderClass\<lparr>combineSelectors := [Some l, Some ('' '' @ c @ '' ''), Some r]\<rparr>])"
    using assms combine_distinct [of "length h" "h @ [SelectorBuilderClass]" left right c]
    by (simp add: nth_append SelectorBuilderClass_def)
  then have general: "fst (cssSelectorBuilder_combine left c right h) = length h \<and>
    combineSelectors (snd (cssSelectorBuilder_combine left c right h) ! length h) =
      [Some l, Some ('' '' @ c @ '' ''), Some r] \<and>
    fst (stringify_at (length h) (snd (cssSelectorBuilder_combine left c right h))) =
      Some (l @ '' '' @ c @ '' '' @ r)"
    by (simp add: facade_combine stringify_at_eq stringify_fst SelectorBuilderClass_def)
  show ?thesis using general worked_example_renders by blast
qed

theorem combine_renders_operands_witness:
  "(0::nat) < length (snd (cssSelectorBuilder_id ''b'' (snd (cssSelectorBuilder_element ''a'' [])))) \<and>
   (1::nat) < length (snd (cssSelectorBuilder_id ''b'' (snd (cssSelectorBuilder_element ''a'' [])))) \<and>
   (0::nat) \<noteq> 1 \<and>
   fst (stringify (snd (cssSelectorBuilder_id ''b'' (snd (cssSelectorBuilder_element ''a'' []))) ! 0))
     = Some ''a'' \<and>
   fst (stringify (snd (cssSelectorBuilder_id ''b'' (snd (cssSelectorBuilder_element ''a'' []))) ! 1))
     = Some ''#b'' \<and>
   fst (stringify_at 2 (snd (cssSelectorBuilder_combine 0 ''>'' 1
     (snd (cssSelectorBuilder_id ''b'' (snd (cssSelectorBuilder_element ''a'' []))))))) = Some ''a > #b''"
proof -
  let ?h = "snd (cssSelectorBuilder_id ''b'' (snd (cssSelectorBuilder_element ''a'' [])))"
  have n: "length ?h = 2" by code_simp
  have l: "fst (stringify (?h ! 0)) = Some ''a''" by code_simp
  have r: "fst (stringify (?h ! 1)) = Some ''#b''" by code_simp
  have "(0::nat) < length ?h" "(1::nat) < length ?h" "(0::nat) \<noteq> 1"
    by (simp_all add: n)
  from combine_renders_operands [OF this l r, of "''>''"] n l r show ?thesis
    by simp
qed

text \<open>
  Claim C10. \<^verbatim>\<open>combine\<close> calls \<^verbatim>\<open>stringify\<close> on both operands. When it returns, each
  operand has empty \<^verbatim>\<open>selectors\<close> and \<^verbatim>\<open>combineSelectors\<close>, and \<^verbatim>\<open>stringify\<close> on it
  returns \<^verbatim>\<open>null\<close>. This holds for the method on a receiver that is neither operand,
  and so for the facade's \<^verbatim>\<open>combine\<close>, whose receiver is new; the two operands may be
  the same builder.
\<close>

theorem combine_consumes_operands:
  "(this < length h \<and> left < length h \<and> right < length h \<and> this \<noteq> left \<and> this \<noteq> right \<longrightarrow>
      consumed left (snd (combine this left c right h)) \<and>
      consumed right (snd (combine this left c right h))) \<and>
   (left < length h \<and> right < length h \<longrightarrow>
      consumed left (snd (cssSelectorBuilder_combine left c right h)) \<and>
      consumed right (snd (cssSelectorBuilder_combine left c right h)))"
proof -
  have m: "consumed left (snd (combine this left c right h)) \<and>
      consumed right (snd (combine this left c right h))"
    if "this < length h" "left < length h" "right < length h" "this \<noteq> left" "this \<noteq> right"
    for this h
    using combine_operands [OF that, of c] that
    by (simp add: consumed_cleared combine_length)
  have "consumed left (snd (cssSelectorBuilder_combine left c right h)) \<and>
      consumed right (snd (cssSelectorBuilder_combine left c right h))"
    if "left < length h" "right < length h"
    unfolding facade_combine using that by (intro m) simp_all
  with m show ?thesis by blast
qed

theorem combine_consumes_operands_witness:
  "(0::nat) < length (snd (cssSelectorBuilder_id ''b'' (snd (cssSelectorBuilder_element ''a'' [])))) \<and>
   (1::nat) < length (snd (cssSelectorBuilder_id ''b'' (snd (cssSelectorBuilder_element ''a'' [])))) \<and>
   consumed 0 (snd (cssSelectorBuilder_combine 0 ''>'' 1
     (snd (cssSelectorBuilder_id ''b'' (snd (cssSelectorBuilder_element ''a'' [])))))) \<and>
   consumed 1 (snd (cssSelectorBuilder_combine 0 ''>'' 1
     (snd (cssSelectorBuilder_id ''b'' (snd (cssSelectorBuilder_element ''a'' [])))))) \<and>
   consumed 0 (snd (combine 1 0 ''>'' 0
     (snd (cssSelectorBuilder_id ''b'' (snd (cssSelectorBuilder_element ''a'' []))))))"
proof -
  let ?h = "snd (cssSelectorBuilder_id ''b'' (snd (cssSelectorBuilder_element ''a'' [])))"
  have n: "length ?h = 2" by code_simp
  have "(0::nat) < length ?h \<and> (1::nat) < length ?h" by (simp add: n)
  moreover have "(1::nat) < length ?h \<and> (0::nat) < length ?h \<and> (0::nat) < length ?h \<and>
     (1::nat) \<noteq> 0 \<and> (1::nat) \<noteq> 0" by (simp add: n)
  ultimately show ?thesis
    using combine_consumes_operands [of 1 ?h 0 0 "''>''"]
      combine_consumes_operands [of _ ?h 0 1 "''>''"]
    by blast
qed

text \<open>
  The condition on the receiver is needed. In \<^verbatim>\<open>a.combine(a, '+', b)\<close> the
  rendering of \<^verbatim>\<open>a\<close> is pushed on the array that \<^verbatim>\<open>stringify\<close> has just detached, and
  \<^verbatim>\<open>a\<close> ends with the combinator and the rendering of \<^verbatim>\<open>b\<close>.
\<close>

lemma combine_receiver_as_operand:
  "fst (stringify_at 0 (snd (combine 0 0 ''+'' 1
     (snd (cssSelectorBuilder_id ''b'' (snd (cssSelectorBuilder_element ''a'' []))))))) =
   Some '' + #b''"
  by code_simp

section \<open>Properties of \<^verbatim>\<open>getJSON\<close> and \<^verbatim>\<open>fromJSON\<close>\<close>

lemma rectangle_text:
  \<open>JSON_stringify [(''width'', 10), (''height'', 20)] = ''{"width":10,"height":20}''\<close>
  by code_simp

lemma rectangle_parsed:
  \<open>JSON_parse ''{"width":10,"height":20}'' = Some [(''width'', 10), (''height'', 20)]\<close>
  by code_simp

text \<open>
  Claim C9. \<^verbatim>\<open>getJSON\<close> of the object with \<^verbatim>\<open>width\<close> 10 and \<^verbatim>\<open>height\<close> 20 is the text
  \<^verbatim>\<open>{"width":10,"height":20}\<close>, and \<^verbatim>\<open>fromJSON\<close> of that text under any prototype is
  an object with the same two fields and that prototype. For every text, the fields of
  the result are those that \<^verbatim>\<open>JSON.parse\<close> returns, with no constructor and no check in
  between. A method of the prototype, under any name that is not
  one of the two fields, can be called on the result and runs on these fields.
\<close>

theorem json_round_trip:
  \<open>getJSON [(''width'', 10), (''height'', 20)] = ''{"width":10,"height":20}'' \<and>
   fromJSON proto (getJSON [(''width'', 10), (''height'', 20)]) =
     Some \<lparr>properties = [(''width'', 10), (''height'', 20)], prototype = proto\<rparr> \<and>
   fromJSON proto json =
     map_option (\<lambda>obj. \<lparr>properties = obj, prototype = proto\<rparr>) (JSON_parse json) \<and>
   (methods name = Some m \<and> name \<notin> {''width'', ''height''} \<longrightarrow>
      (\<exists>obj. fromJSON methods (getJSON [(''width'', 10), (''height'', 20)]) = Some obj \<and>
         invoke_method obj name = Some (m [(''width'', 10), (''height'', 20)])))\<close>
  by (simp add: getJSON_def fromJSON_def rectangle_text rectangle_parsed
      Object_setPrototypeOf_def invoke_method_def split: option.split)

theorem json_round_trip_witness:
  \<open>[''getArea'' \<mapsto> getArea] ''getArea'' = Some getArea \<and>
   ''getArea'' \<notin> {''width'', ''height''} \<and>
   fromJSON [''getArea'' \<mapsto> getArea] (getJSON [(''width'', 10), (''height'', 20)]) =
     Some \<lparr>properties = [(''width'', 10), (''height'', 20)],
       prototype = [''getArea'' \<mapsto> getArea]\<rparr> \<and>
   invoke_method \<lparr>properties = [(''width'', 10), (''height'', 20)],
       prototype = [''getArea'' \<mapsto> getArea]\<rparr> ''getArea'' = Some (Some 200)\<close>
proof -
  let ?P = "[''getArea'' \<mapsto> getArea]"
  let ?R = "[(''width'', 10), (''height'', 20)] :: fields"
  let ?O = "\<lparr>properties = ?R, prototype = ?P\<rparr>"
  note t = json_round_trip [where proto = ?P and methods = ?P and name = "''getArea''"
      and m = getArea]
  have a: "getArea ?R = Some 200"
    by (simp add: getArea_def)
  have b: "?P ''getArea'' = Some getArea \<and> ''getArea'' \<notin> {''width'', ''height''}"
    by simp
  from t have c1: "fromJSON ?P (getJSON ?R) = Some ?O" by blast
  from t b have "\<exists>obj. fromJSON ?P (getJSON ?R) = Some obj \<and>
      invoke_method obj ''getArea'' = Some (getArea ?R)" by blast
  then have "invoke_method ?O ''getArea'' = Some (getArea ?R)"
    unfolding c1 by blast
  then have c3: "invoke_method ?O ''getArea'' = Some (Some 200)"
    unfolding a .
  show ?thesis using b c1 c3 by blast
qed

end
